theory Spec2Isabelle
  imports Main
begin

section \<open>Python values and exceptions\<close>

text \<open>
  The coordination code of \<^verbatim>\<open>main.py\<close> is dynamically typed. The value stored in
  \<^verbatim>\<open>self._eval_every\<close> is whatever \<^verbatim>\<open>argparse\<close> produced for
  \<^verbatim>\<open>--eval-frequency\<close>, so it is kept as a tagged Python value: an \<^verbatim>\<open>int\<close>
  or a \<^verbatim>\<open>str\<close>.
\<close>

datatype pyval = PyInt int | PyStr string

datatype pyver = Python2 | Python3

datatype error =
    TypeError
  | ValueError
  | AttributeError
  | UnboundLocalError
  | OtherError string

text \<open>
  \<^verbatim>\<open>a > b\<close> on Python values. Two ints compare as integers, two strs
  lexicographically. An int against a str is the mixed case: CPython 2 orders every
  number below every non-number, so \<^verbatim>\<open>5 > '3'\<close> is \<^verbatim>\<open>False\<close> and
  \<^verbatim>\<open>'3' > 5\<close> is \<^verbatim>\<open>True\<close>; Python 3 raises \<^verbatim>\<open>TypeError\<close>.
\<close>

fun str_gt :: "string \<Rightarrow> string \<Rightarrow> bool" where
  "str_gt [] ys = False"
| "str_gt (x # xs) [] = True"
| "str_gt (x # xs) (y # ys) =
     (if of_char x > (of_char y :: nat) then True
      else if of_char x < (of_char y :: nat) then False
      else str_gt xs ys)"

fun py_gt :: "pyver \<Rightarrow> pyval \<Rightarrow> pyval \<Rightarrow> error + bool" where
  "py_gt v (PyInt a) (PyInt b) = Inr (a > b)"
| "py_gt v (PyStr a) (PyStr b) = Inr (str_gt a b)"
| "py_gt Python2 (PyInt a) (PyStr b) = Inr False"
| "py_gt Python2 (PyStr a) (PyInt b) = Inr True"
| "py_gt Python3 (PyInt a) (PyStr b) = Inl TypeError"
| "py_gt Python3 (PyStr a) (PyInt b) = Inl TypeError"

section \<open>The evaluation hook object\<close>

text \<open>
  \<^verbatim>\<open>tf.train.latest_checkpoint\<close> returns the path of the newest checkpoint, or
  \<^verbatim>\<open>None\<close> when the directory holds none. A summary is the serialized protocol
  buffer \<^verbatim>\<open>session.run(self._summary_op)\<close> returns.
\<close>

type_synonym checkpoint = string
type_synonym summary = string

text \<open>
  The call log: the order of the calls a callback makes on the hook. It is not a field of
  the Python object; the callbacks below append to it at the place of each call.
\<close>

datatype event =
    Update_Called
  | Eval_Lock_Acquire bool
  | Run_Eval_Called
  | Eval_Lock_Release

text \<open>
  The fields \<^verbatim>\<open>EvaluationRunHook.__init__\<close> sets. A \<^verbatim>\<open>threading.Lock\<close>
  is its state: \<open>True\<close> when some thread holds it. \<open>file_writer\<close> is the list of
  records given to \<^verbatim>\<open>self._file_writer.add_summary\<close>, each with its
  \<^verbatim>\<open>global_step\<close>; \<open>flushed\<close> counts the calls of \<^verbatim>\<open>flush\<close>.
\<close>

record hook =
  eval_steps :: "int option"
  checkpoint_dir :: string
  eval_every :: pyval
  latest_checkpoint :: "checkpoint option"
  checkpoints_since_eval :: int
  eval_lock :: bool
  checkpoint_lock :: bool
  file_writer :: "(summary \<times> int) list"
  flushed :: nat
  calls :: "event list"

definition EvaluationRunHook :: "string \<Rightarrow> pyval \<Rightarrow> int option \<Rightarrow> hook" where
  "EvaluationRunHook dir eval_frequency steps =
     \<lparr> eval_steps = steps,
       checkpoint_dir = dir,
       eval_every = eval_frequency,
       latest_checkpoint = None,
       checkpoints_since_eval = 0,
       eval_lock = False,
       checkpoint_lock = False,
       file_writer = [],
       flushed = 0,
       calls = [] \<rparr>"

section \<open>Checkpoint tracker\<close>

text \<open>
  \<^verbatim>\<open>_update_latest_checkpoint\<close>. The argument \<open>latest\<close> is what
  \<^verbatim>\<open>tf.train.latest_checkpoint(self._checkpoint_dir)\<close> returns at this call.
  \<^verbatim>\<open>self._checkpoint_lock.acquire(False)\<close> fails when the lock is held, and the
  method then returns at once; otherwise the lock is taken, the body runs and the
  \<^verbatim>\<open>finally\<close> clause releases it.
\<close>

definition update_latest_checkpoint :: "checkpoint option \<Rightarrow> hook \<Rightarrow> hook" where
  "update_latest_checkpoint latest h =
     (if checkpoint_lock h then h
      else
        let h1 = h\<lparr>checkpoint_lock := True\<rparr>;
            h2 = (if \<not> (latest = latest_checkpoint h1)
                  then h1\<lparr>checkpoints_since_eval := checkpoints_since_eval h1 + 1,
                          latest_checkpoint := latest\<rparr>
                  else h1)
        in h2\<lparr>checkpoint_lock := False\<rparr>)"

text \<open>A sequence of calls, one observed directory state per call.\<close>

fun update_all :: "checkpoint option list \<Rightarrow> hook \<Rightarrow> hook" where
  "update_all [] h = h"
| "update_all (l # ls) h = update_all ls (update_latest_checkpoint l h)"

text \<open>The number of positions at which the observed identifier differs from the one before.\<close>

fun changes :: "checkpoint option \<Rightarrow> checkpoint option list \<Rightarrow> nat" where
  "changes prev [] = 0"
| "changes prev (l # ls) = (if l = prev then 0 else 1) + changes l ls"

section \<open>Evaluation runner\<close>

text \<open>
  What a call leaves behind: it returns, it raises, or it is blocked on a lock another
  thread holds. Each carries the hook as the call left it. A call that never ends (the
  evaluation loop on an endless input with no step bound) has no outcome at all: the
  functions below return \<open>None\<close> for it.
\<close>

datatype 'a outcome =
    Returned (state_of: 'a)
  | Raised error (state_of: 'a)
  | Blocked (state_of: 'a)

text \<open>
  \<^verbatim>\<open>session.run(self._summary_op)\<close> either produces the merged summaries or raises:
  \<^verbatim>\<open>tf.errors.OutOfRangeError\<close> when the input pipeline is exhausted,
  \<^verbatim>\<open>tf.errors.CancelledError\<close> when it was cancelled, or something else.
\<close>

datatype run_result =
    Produced summary
  | OutOfRangeError
  | CancelledError
  | Failure error

text \<open>
  The surroundings of one callback invocation, as the TensorFlow runtime presents them:
  \<^item> \<open>python\<close>: the interpreter's major version, which decides a mixed comparison;
  \<^item> \<open>latest_in_dir\<close>: what \<^verbatim>\<open>tf.train.latest_checkpoint(self._checkpoint_dir)\<close>
    returns;
  \<^item> \<open>restore\<close>: the statements of \<^verbatim>\<open>_run_eval\<close> before the loop, from
    \<^verbatim>\<open>self._saver.restore(session, self._latest_checkpoint)\<close> to
    \<^verbatim>\<open>train_step = session.run(self._gs)\<close>: one of them raises, or the global step
    stored in the checkpoint is read;
  \<^item> \<open>should_stop i\<close>: what \<^verbatim>\<open>coord.should_stop()\<close> answers at the loop test
    after \<open>i\<close> completed iterations (a queue runner started with the coordinator may
    have requested the stop in the meantime);
  \<^item> \<open>run_summary i\<close>: the result of \<^verbatim>\<open>session.run(self._summary_op)\<close> in the
    iteration after \<open>i\<close> completed ones.
\<close>

record eval_env =
  python :: pyver
  latest_in_dir :: "checkpoint option"
  restore :: "checkpoint option \<Rightarrow> error + int"
  should_stop :: "nat \<Rightarrow> bool"
  run_summary :: "nat \<Rightarrow> run_result"

text \<open>
  The local variables of the loop of \<^verbatim>\<open>_run_eval\<close>. \<open>summaries\<close> is \<open>None\<close>
  as long as the Python local is unbound: it is assigned in the loop body only.
  \<open>coord_exc\<close> is the exception the coordinator has recorded.
\<close>

record loop_state =
  eval_step :: nat
  summaries :: "summary option"
  coord_exc :: "error option"

definition loop_init :: loop_state where
  "loop_init = \<lparr> eval_step = 0, summaries = None, coord_exc = None \<rparr>"

text \<open>
  The \<^verbatim>\<open>while\<close> loop inside \<^verbatim>\<open>with coord.stop_on_exception():\<close>. The context
  manager catches whatever the body raises and hands it to
  \<^verbatim>\<open>coord.request_stop\<close>, which ends the block: an exception of the coordinator's
  \<^verbatim>\<open>clean_stop_exception_types\<close> (\<^verbatim>\<open>CancelledError\<close>,
  \<^verbatim>\<open>OutOfRangeError\<close>) is dropped, any other one is recorded in the coordinator.
  The two \<^verbatim>\<open>tf.logging.info\<close> lines write to the process log only and are left out.
\<close>

partial_function (option) eval_loop :: "eval_env \<Rightarrow> int option \<Rightarrow> loop_state \<Rightarrow> loop_state option" where
  "eval_loop env steps st =
     (if \<not> should_stop env (eval_step st)
         \<and> (case steps of None \<Rightarrow> True | Some n \<Rightarrow> int (eval_step st) < n)
      then
        (case run_summary env (eval_step st) of
           Produced s \<Rightarrow>
             eval_loop env steps (st\<lparr>summaries := Some s, eval_step := eval_step st + 1\<rparr>)
         | OutOfRangeError \<Rightarrow> Some st
         | CancelledError \<Rightarrow> Some st
         | Failure e \<Rightarrow> Some (st\<lparr>coord_exc := Some e\<rparr>))
      else Some st)"

declare eval_loop.simps [code]

text \<open>
  \<^verbatim>\<open>_run_eval\<close>. After the loop the record is written with
  \<^verbatim>\<open>self._file_writer.add_summary(summaries, global_step=train_step)\<close> and the writer
  is flushed. Reading the local \<^verbatim>\<open>summaries\<close> while it is unbound raises
  \<^verbatim>\<open>UnboundLocalError\<close>. \<^verbatim>\<open>coord.join\<close> is never called, so an exception the
  coordinator recorded is not raised again.
\<close>

definition run_eval :: "eval_env \<Rightarrow> hook \<Rightarrow> hook outcome option" where
  "run_eval env h =
     (case restore env (latest_checkpoint h) of
        Inl e \<Rightarrow> Some (Raised e h)
      | Inr train_step \<Rightarrow>
          (case eval_loop env (eval_steps h) loop_init of
             None \<Rightarrow> None
           | Some st \<Rightarrow>
               (case summaries st of
                  None \<Rightarrow> Some (Raised UnboundLocalError h)
                | Some s \<Rightarrow>
                    Some (Returned (h\<lparr>file_writer := file_writer h @ [(s, train_step)],
                                     flushed := flushed h + 1\<rparr>)))))"

section \<open>Evaluation hook callbacks\<close>

definition log_call :: "event \<Rightarrow> hook \<Rightarrow> hook" where
  "log_call e h = h\<lparr>calls := calls h @ [e]\<rparr>"

definition release_eval_lock :: "hook \<Rightarrow> hook" where
  "release_eval_lock h = log_call Eval_Lock_Release (h\<lparr>eval_lock := False\<rparr>)"

text \<open>
  \<^verbatim>\<open>after_run\<close>. \<^verbatim>\<open>self._eval_lock.acquire(False)\<close> fails when the lock is held.
  The \<^verbatim>\<open>finally\<close> clause runs on every way out of the \<^verbatim>\<open>try\<close> block: after the
  comparison was false, after the comparison raised, after \<^verbatim>\<open>_run_eval\<close> returned
  and after it raised.
\<close>

definition after_run :: "eval_env \<Rightarrow> hook \<Rightarrow> hook outcome option" where
  "after_run env h =
     (let h1 = update_latest_checkpoint (latest_in_dir env) (log_call Update_Called h)
      in if eval_lock h1 then Some (Returned (log_call (Eval_Lock_Acquire False) h1))
         else
           let h2 = log_call (Eval_Lock_Acquire True) (h1\<lparr>eval_lock := True\<rparr>)
           in (case py_gt (python env) (PyInt (checkpoints_since_eval h2)) (eval_every h2) of
                 Inl e \<Rightarrow> Some (Raised e (release_eval_lock h2))
               | Inr False \<Rightarrow> Some (Returned (release_eval_lock h2))
               | Inr True \<Rightarrow>
                   map_option (map_outcome release_eval_lock)
                     (run_eval env (log_call Run_Eval_Called (h2\<lparr>checkpoints_since_eval := 0\<rparr>)))))"

text \<open>
  \<^verbatim>\<open>end\<close>. \<^verbatim>\<open>with self._eval_lock:\<close> acquires the lock blockingly: while another
  thread holds it the call waits there; leaving the block releases the lock, also when
  \<^verbatim>\<open>_run_eval\<close> raised.
\<close>

definition end_hook :: "eval_env \<Rightarrow> hook \<Rightarrow> hook outcome option" where
  "end_hook env h =
     (let h1 = update_latest_checkpoint (latest_in_dir env) (log_call Update_Called h)
      in if eval_lock h1 then Some (Blocked h1)
         else
           let h2 = log_call (Eval_Lock_Acquire True) (h1\<lparr>eval_lock := True\<rparr>)
           in map_option (map_outcome release_eval_lock)
                (run_eval env (log_call Run_Eval_Called h2)))"

section \<open>Training session driver\<close>

text \<open>
  The arguments of \<^verbatim>\<open>run\<close> the coordination code reads. The dataset and model
  arguments (\<^verbatim>\<open>dataset_name\<close>, \<^verbatim>\<open>domain_a\<close>, \<^verbatim>\<open>domain_b\<close>,
  \<^verbatim>\<open>dataset_dir\<close>, the batch sizes and the learning rate) go to
  \<^verbatim>\<open>dataset_factory\<close> and \<^verbatim>\<open>autoconverter\<close> only.
\<close>

record train_args =
  train_steps :: "int option"
  eval_steps_arg :: "int option"
  eval_frequency :: pyval
  job_dir :: string

text \<open>The keyword arguments \<^verbatim>\<open>run\<close> gives to \<^verbatim>\<open>tf.train.MonitoredTrainingSession\<close>.\<close>

record session_args =
  master :: string
  is_chief :: bool
  session_checkpoint_dir :: string
  hooks :: "hook list"
  save_checkpoint_secs :: nat
  save_summaries_steps :: nat

text \<open>
  \<^verbatim>\<open>run\<close>, up to the session it opens: the branch on \<^verbatim>\<open>is_chief\<close> builds the
  hook list, and the session is created with it. The training loop inside the session
  belongs to the TensorFlow runtime.
\<close>

definition run :: "string \<Rightarrow> bool \<Rightarrow> train_args \<Rightarrow> session_args" where
  "run target chief args =
     (let hs = (if chief
                then [EvaluationRunHook (job_dir args) (eval_frequency args) (eval_steps_arg args)]
                else [])
      in \<lparr> master = target,
           is_chief = chief,
           session_checkpoint_dir = job_dir args,
           hooks = hs,
           save_checkpoint_secs = 300,
           save_summaries_steps = 50 \<rparr>)"

section \<open>Dispatcher\<close>

text \<open>What \<^verbatim>\<open>json.loads\<close> returns; \<open>JNull\<close> is Python's \<^verbatim>\<open>None\<close>.\<close>

datatype json =
    JNull
  | JBool bool
  | JNum int
  | JStr string
  | JList "json list"
  | JDict "(string \<times> json) list"

text \<open>
  \<^verbatim>\<open>d.get(key, default)\<close>: only a dict has the method; on any other value the
  attribute lookup raises \<^verbatim>\<open>AttributeError\<close>. A key that is present with the value
  \<^verbatim>\<open>null\<close> yields \<^verbatim>\<open>None\<close>, not the default.
\<close>

fun dict_get :: "json \<Rightarrow> string \<Rightarrow> json \<Rightarrow> error + json" where
  "dict_get (JDict kvs) k d = Inr (case map_of kvs k of None \<Rightarrow> d | Some v \<Rightarrow> v)"
| "dict_get j k d = Inl AttributeError"

text \<open>
  The process environment and the library calls of \<^verbatim>\<open>dispatch\<close>:
  \<^item> \<open>TF_CONFIG\<close>: \<^verbatim>\<open>os.environ.get('TF_CONFIG')\<close>;
  \<^item> \<open>json_loads\<close>: \<^verbatim>\<open>json.loads\<close>;
  \<^item> \<open>start_server cluster job_name task_index\<close>:
    \<^verbatim>\<open>tf.train.ClusterSpec(cluster)\<close> followed by \<^verbatim>\<open>tf.train.Server(...)\<close>,
    which starts the server: one of them raises, or the started server's
    \<^verbatim>\<open>target\<close> results.
\<close>

record process_env =
  TF_CONFIG :: "string option"
  json_loads :: "string \<Rightarrow> error + json"
  start_server :: "json \<Rightarrow> json \<Rightarrow> json \<Rightarrow> error + string"

text \<open>
  How \<^verbatim>\<open>dispatch\<close> ends: with the session \<^verbatim>\<open>run\<close> opened; in
  \<^verbatim>\<open>server.join()\<close>, which does not return; by falling off the end of the function
  with a server started (the value is \<^verbatim>\<open>None\<close>); or with an exception.
\<close>

datatype dispatched =
    Trains session_args
  | Serves_Forever string
  | Returns_None string
  | Fails error

definition dispatch :: "process_env \<Rightarrow> train_args \<Rightarrow> dispatched" where
  "dispatch env args =
     (case TF_CONFIG env of
        None \<Rightarrow> Trains (run [] True args)
      | Some tf_config \<Rightarrow>
          if tf_config = [] then Trains (run [] True args)
          else
            (case json_loads env tf_config of
               Inl e \<Rightarrow> Fails e
             | Inr tf_config_json \<Rightarrow>
                 (case dict_get tf_config_json ''cluster'' JNull of
                    Inl e \<Rightarrow> Fails e
                  | Inr cluster \<Rightarrow>
                      (case dict_get tf_config_json ''task'' (JDict []) of
                         Inl e \<Rightarrow> Fails e
                       | Inr task \<Rightarrow>
                           (case dict_get task ''type'' JNull of
                              Inl e \<Rightarrow> Fails e
                            | Inr job_name \<Rightarrow>
                                (case dict_get task ''index'' JNull of
                                   Inl e \<Rightarrow> Fails e
                                 | Inr task_index \<Rightarrow>
                                     if job_name = JNull \<or> task_index = JNull
                                     then Trains (run [] True args)
                                     else
                                       (case start_server env cluster job_name task_index of
                                          Inl e \<Rightarrow> Fails e
                                        | Inr target \<Rightarrow>
                                            if job_name = JStr ''ps''
                                            then Serves_Forever target
                                            else if job_name \<in> set [JStr ''master'', JStr ''worker'']
                                            then Trains (run target (job_name = JStr ''master'') args)
                                            else Returns_None target)))))))"

section \<open>Command line\<close>

text \<open>
  The value \<^verbatim>\<open>argparse\<close> stores for an option: the argument string that follows the
  flag (the last occurrence counts), or nothing when the flag is not given.
\<close>

fun flag_value :: "string \<Rightarrow> string list \<Rightarrow> string option" where
  "flag_value f [] = None"
| "flag_value f [a] = None"
| "flag_value f (a # b # rest) =
     (if a = f
      then (case flag_value f rest of None \<Rightarrow> Some b | Some v \<Rightarrow> Some v)
      else flag_value f (b # rest))"

text \<open>
  \<^verbatim>\<open>int(s)\<close> on an argument string, as \<^verbatim>\<open>type=int\<close> applies it: an optional
  sign and decimal digits, \<^verbatim>\<open>ValueError\<close> otherwise.
\<close>

definition is_digit :: "char \<Rightarrow> bool" where
  "is_digit c = (48 \<le> (of_char c :: nat) \<and> (of_char c :: nat) \<le> 57)"

definition digits_value :: "string \<Rightarrow> int" where
  "digits_value ds = foldl (\<lambda>acc c. 10 * acc + (int (of_char c) - 48)) 0 ds"

definition py_int :: "string \<Rightarrow> error + int" where
  "py_int s =
     (case s of
        [] \<Rightarrow> Inl ValueError
      | c # cs \<Rightarrow>
          if c = CHR ''-'' \<and> cs \<noteq> [] \<and> list_all is_digit cs then Inr (- digits_value cs)
          else if c = CHR ''+'' \<and> cs \<noteq> [] \<and> list_all is_digit cs then Inr (digits_value cs)
          else if list_all is_digit s then Inr (digits_value s)
          else Inl ValueError)"

text \<open>An option declared with \<^verbatim>\<open>type=int\<close> and the default \<^verbatim>\<open>None\<close>.\<close>

definition int_option :: "string \<Rightarrow> string list \<Rightarrow> error + int option" where
  "int_option f argv =
     (case flag_value f argv of
        None \<Rightarrow> Inr None
      | Some s \<Rightarrow> (case py_int s of Inl e \<Rightarrow> Inl e | Inr n \<Rightarrow> Inr (Some n)))"

text \<open>
  The options of the parser in \<^verbatim>\<open>__main__\<close> that reach the coordination code.
  \<^verbatim>\<open>--train-steps\<close> and \<^verbatim>\<open>--eval-steps\<close> are declared with \<^verbatim>\<open>type=int\<close>.
  \<^verbatim>\<open>--eval-frequency\<close> is declared with \<^verbatim>\<open>default=1\<close> and no \<^verbatim>\<open>type\<close>, so
  an argument given on the command line is stored as the string it is.
  \<^verbatim>\<open>--job-dir\<close> is required.
\<close>

definition parse_args :: "string list \<Rightarrow> error + train_args" where
  "parse_args argv =
     (case int_option ''--train-steps'' argv of
        Inl e \<Rightarrow> Inl e
      | Inr ts \<Rightarrow>
          (case int_option ''--eval-steps'' argv of
             Inl e \<Rightarrow> Inl e
           | Inr es \<Rightarrow>
               (case flag_value ''--job-dir'' argv of
                  None \<Rightarrow> Inl (OtherError ''the following arguments are required: --job-dir'')
                | Some dir \<Rightarrow>
                    Inr \<lparr> train_steps = ts,
                          eval_steps_arg = es,
                          eval_frequency =
                            (case flag_value ''--eval-frequency'' argv of
                               None \<Rightarrow> PyInt 1
                             | Some s \<Rightarrow> PyStr s),
                          job_dir = dir \<rparr>)))"


section \<open>Overlapping callbacks\<close>

text \<open>
  The session runs the callbacks of the one hook object on background threads that may
  overlap. A thread is at one of the places below of \<^verbatim>\<open>after_run\<close> or of
  \<^verbatim>\<open>end\<close>; between two places it performs one statement on the shared hook:
  \<^item> \<open>AR_Update\<close>, \<open>End_Update\<close>: before \<^verbatim>\<open>self._update_latest_checkpoint()\<close>;
  \<^item> \<open>AR_Acquire\<close>: before \<^verbatim>\<open>self._eval_lock.acquire(False)\<close>;
  \<^item> \<open>AR_Test\<close>: inside \<^verbatim>\<open>try\<close>, before the comparison;
  \<^item> \<open>AR_Eval\<close>, \<open>End_Eval\<close>: inside \<^verbatim>\<open>self._run_eval()\<close>;
  \<^item> \<open>AR_Finally\<close>: before \<^verbatim>\<open>self._eval_lock.release()\<close> of the \<^verbatim>\<open>finally\<close>
    clause;
  \<^item> \<open>End_Acquire\<close>: before entering \<^verbatim>\<open>with self._eval_lock\<close>;
  \<^item> \<open>End_Exit\<close>: before leaving the \<^verbatim>\<open>with\<close> block, which releases the lock;
  \<^item> \<open>Finished\<close>: the callback is over.
\<close>

datatype pc =
    AR_Update
  | AR_Acquire
  | AR_Test
  | AR_Eval
  | AR_Finally
  | End_Update
  | End_Acquire
  | End_Eval
  | End_Exit
  | Finished

text \<open>
  One statement of a thread. \<open>None\<close>: the thread cannot move (it waits for the lock, it is
  over, or its evaluation pass never ends). Acquiring a \<^verbatim>\<open>threading.Lock\<close> is atomic.
  The evaluation pass takes effect on the hook when it ends.
\<close>

fun thread_step :: "eval_env \<Rightarrow> pc \<Rightarrow> hook \<Rightarrow> (pc \<times> hook) option" where
  "thread_step env AR_Update h =
     Some (AR_Acquire, update_latest_checkpoint (latest_in_dir env) (log_call Update_Called h))"
| "thread_step env AR_Acquire h =
     (if eval_lock h then Some (Finished, log_call (Eval_Lock_Acquire False) h)
      else Some (AR_Test, log_call (Eval_Lock_Acquire True) (h\<lparr>eval_lock := True\<rparr>)))"
| "thread_step env AR_Test h =
     (case py_gt (python env) (PyInt (checkpoints_since_eval h)) (eval_every h) of
        Inl e \<Rightarrow> Some (AR_Finally, h)
      | Inr False \<Rightarrow> Some (AR_Finally, h)
      | Inr True \<Rightarrow> Some (AR_Eval, log_call Run_Eval_Called (h\<lparr>checkpoints_since_eval := 0\<rparr>)))"
| "thread_step env AR_Eval h = map_option (\<lambda>r. (AR_Finally, state_of r)) (run_eval env h)"
| "thread_step env AR_Finally h = Some (Finished, release_eval_lock h)"
| "thread_step env End_Update h =
     Some (End_Acquire, update_latest_checkpoint (latest_in_dir env) (log_call Update_Called h))"
| "thread_step env End_Acquire h =
     (if eval_lock h then None
      else Some (End_Eval,
                 log_call Run_Eval_Called (log_call (Eval_Lock_Acquire True) (h\<lparr>eval_lock := True\<rparr>))))"
| "thread_step env End_Eval h = map_option (\<lambda>r. (End_Exit, state_of r)) (run_eval env h)"
| "thread_step env End_Exit h = Some (Finished, release_eval_lock h)"
| "thread_step env Finished h = None"

text \<open>The hook object shared by all callbacks, and the place of every thread started so far.\<close>

record system =
  shared :: hook
  threads :: "pc list"

text \<open>
  What can happen next: the session invokes \<^verbatim>\<open>after_run\<close> or \<^verbatim>\<open>end\<close> on a new
  thread, or thread \<open>i\<close> performs its next statement in the surroundings \<open>env\<close>.
\<close>

datatype action =
    Invoke_After_Run
  | Invoke_End
  | Step nat eval_env

fun perform :: "system \<Rightarrow> action \<Rightarrow> system" where
  "perform s Invoke_After_Run = s\<lparr>threads := threads s @ [AR_Update]\<rparr>"
| "perform s Invoke_End = s\<lparr>threads := threads s @ [End_Update]\<rparr>"
| "perform s (Step i env) =
     (if i < length (threads s)
      then (case thread_step env (threads s ! i) (shared s) of
              None \<Rightarrow> s
            | Some (p, h) \<Rightarrow> \<lparr> shared = h, threads = (threads s)[i := p] \<rparr>)
      else s)"

text \<open>An interleaving is a list of actions, performed from the left.\<close>

definition exec :: "action list \<Rightarrow> system \<Rightarrow> system" where
  "exec acts s = foldl perform s acts"

text \<open>The state after \<^verbatim>\<open>run\<close> has built the hook: no callback invoked yet.\<close>

definition initial :: "string \<Rightarrow> pyval \<Rightarrow> int option \<Rightarrow> system" where
  "initial dir freq steps = \<lparr> shared = EvaluationRunHook dir freq steps, threads = [] \<rparr>"

definition in_run_eval :: "pc \<Rightarrow> bool" where
  "in_run_eval p = (p = AR_Eval \<or> p = End_Eval)"

definition holds_eval_lock :: "pc \<Rightarrow> bool" where
  "holds_eval_lock p = (p \<in> set [AR_Test, AR_Eval, AR_Finally, End_Eval, End_Exit])"

text \<open>
  The number of threads between the acquire and the release of the evaluation guard, and
  the invariant that ties it to the state of the lock.
\<close>

definition lock_holders :: "system \<Rightarrow> nat" where
  "lock_holders s = length (filter holds_eval_lock (threads s))"

definition guard_inv :: "system \<Rightarrow> bool" where
  "guard_inv s = (lock_holders s = (if eval_lock (shared s) then 1 else 0))"

section \<open>Concrete surroundings\<close>

text \<open>
  Inputs for running the definitions. \<open>restore_step g\<close> restores any checkpoint and reads
  the global step \<open>g\<close> from it; without a checkpoint
  \<^verbatim>\<open>self._saver.restore(session, None)\<close> raises \<^verbatim>\<open>ValueError\<close>.
\<close>

definition restore_step :: "int \<Rightarrow> checkpoint option \<Rightarrow> error + int" where
  "restore_step g c = (case c of None \<Rightarrow> Inl ValueError | Some p \<Rightarrow> Inr g)"

text \<open>An input pipeline that never ends, with no stop requested.\<close>

definition endless_env :: "pyver \<Rightarrow> checkpoint option \<Rightarrow> int \<Rightarrow> eval_env" where
  "endless_env v latest g =
     \<lparr> python = v,
       latest_in_dir = latest,
       restore = restore_step g,
       should_stop = (\<lambda>i. False),
       run_summary = (\<lambda>i. Produced ''summary'') \<rparr>"

text \<open>An input pipeline that is exhausted after \<open>k\<close> batches.\<close>

definition finite_env :: "pyver \<Rightarrow> checkpoint option \<Rightarrow> int \<Rightarrow> nat \<Rightarrow> eval_env" where
  "finite_env v latest g k =
     \<lparr> python = v,
       latest_in_dir = latest,
       restore = restore_step g,
       should_stop = (\<lambda>i. False),
       run_summary = (\<lambda>i. if i < k then Produced ''summary'' else OutOfRangeError) \<rparr>"

text \<open>
  A chief's hook in the middle of training: \<open>c\<close> checkpoints seen since the last
  evaluation, the newest one \<open>ckpt\<close>.
\<close>

definition hook_at :: "pyval \<Rightarrow> int option \<Rightarrow> checkpoint \<Rightarrow> int \<Rightarrow> hook" where
  "hook_at freq steps ckpt c =
     (EvaluationRunHook ''job'' freq steps)
       \<lparr>latest_checkpoint := Some ckpt, checkpoints_since_eval := c\<rparr>"

text \<open>
  An interleaving of three callbacks: the first \<^verbatim>\<open>after_run\<close> sees a new checkpoint,
  takes the guard and enters the evaluation; a second \<^verbatim>\<open>after_run\<close> updates and
  finds the guard taken; then \<^verbatim>\<open>end\<close> updates and reaches the guard.
\<close>

definition overlapping_schedule :: "action list" where
  "overlapping_schedule =
     [Invoke_After_Run,
      Step 0 (endless_env Python3 (Some ''model.ckpt-10'') 10),
      Step 0 (endless_env Python3 (Some ''model.ckpt-10'') 10),
      Step 0 (endless_env Python3 (Some ''model.ckpt-10'') 10),
      Invoke_After_Run,
      Step 1 (endless_env Python3 (Some ''model.ckpt-20'') 20),
      Step 1 (endless_env Python3 (Some ''model.ckpt-20'') 20),
      Invoke_End,
      Step 2 (endless_env Python3 (Some ''model.ckpt-20'') 20),
      Step 2 (endless_env Python3 (Some ''model.ckpt-20'') 20)]"

text \<open>
  A cluster of one master, three workers, one parameter server and one task of a role
  the dispatcher does not know, and what \<^verbatim>\<open>json.loads\<close> makes of a
  \<^verbatim>\<open>TF_CONFIG\<close> that names the task \<open>(role, idx)\<close> in it.
\<close>

definition cluster_json :: json where
  "cluster_json =
     JDict [(''master'', JList [JStr ''10.0.0.1:2222'']),
            (''worker'', JList [JStr ''10.0.0.2:2222'', JStr ''10.0.0.3:2222'',
                                JStr ''10.0.0.4:2222'']),
            (''ps'', JList [JStr ''10.0.0.5:2222'']),
            (''evaluator'', JList [JStr ''10.0.0.9:2222''])]"

definition task_json :: "string \<Rightarrow> int \<Rightarrow> json" where
  "task_json role idx = JDict [(''type'', JStr role), (''index'', JNum idx)]"

definition config_json :: "string \<Rightarrow> int \<Rightarrow> json" where
  "config_json role idx = JDict [(''cluster'', cluster_json), (''task'', task_json role idx)]"


text \<open>The texts of these values; \<open>idx\<close> is the index in decimal digits.\<close>

definition config_text :: "string \<Rightarrow> string \<Rightarrow> string" where
  \<open>config_text role idx =
     ''{"cluster": {"master": ["10.0.0.1:2222"], ''
     @ ''"worker": ["10.0.0.2:2222", "10.0.0.3:2222", "10.0.0.4:2222"], ''
     @ ''"ps": ["10.0.0.5:2222"], "evaluator": ["10.0.0.9:2222"]}, ''
     @ ''"task": {"type": "'' @ role @ ''", "index": '' @ idx @ ''}}''\<close>


text \<open>\<^verbatim>\<open>json.loads\<close> on the texts of a table; any other text is not JSON.\<close>

definition loads_table :: "(string \<times> json) list \<Rightarrow> string \<Rightarrow> error + json" where
  "loads_table tbl text = (case map_of tbl text of None \<Rightarrow> Inl ValueError | Some j \<Rightarrow> Inr j)"

text \<open>
  The server start. \<^verbatim>\<open>tf.train.ClusterSpec\<close> takes a dict of jobs and raises
  \<^verbatim>\<open>TypeError\<close> on anything else, \<^verbatim>\<open>None\<close> included;
  \<^verbatim>\<open>tf.train.Server\<close> raises \<^verbatim>\<open>ValueError\<close> for a job or a task index the
  cluster does not have; otherwise the server starts, and its target is the address of
  the task.
\<close>

definition cluster_server :: "json \<Rightarrow> json \<Rightarrow> json \<Rightarrow> error + string" where
  "cluster_server cluster job_name task_index =
     (case cluster of
        JDict jobs \<Rightarrow>
          (case job_name of
             JStr name \<Rightarrow>
               (case task_index of
                  JNum i \<Rightarrow>
                    (case map_of jobs name of
                       Some (JList addrs) \<Rightarrow>
                         if 0 \<le> i \<and> nat i < length addrs
                         then (case addrs ! nat i of
                                 JStr a \<Rightarrow> Inr (''grpc://'' @ a)
                               | _ \<Rightarrow> Inl TypeError)
                         else Inl ValueError
                     | _ \<Rightarrow> Inl ValueError)
                | _ \<Rightarrow> Inl TypeError)
           | _ \<Rightarrow> Inl TypeError)
      | _ \<Rightarrow> Inl TypeError)"

text \<open>A process whose \<^verbatim>\<open>TF_CONFIG\<close> is \<open>text\<close>, which parses to \<open>j\<close>.\<close>

definition process_with :: "string \<Rightarrow> json \<Rightarrow> process_env" where
  "process_with text j =
     \<lparr> TF_CONFIG = Some text,
       json_loads = loads_table [(text, j)],
       start_server = cluster_server \<rparr>"

text \<open>The arguments of a run with the defaults of the command line.\<close>

definition default_args :: train_args where
  "default_args =
     \<lparr> train_steps = None, eval_steps_arg = None, eval_frequency = PyInt 1, job_dir = ''out'' \<rparr>"

section \<open>Checkpoint tracker: properties\<close>

lemma update_changed:
  "\<not> checkpoint_lock h \<Longrightarrow> latest \<noteq> latest_checkpoint h \<Longrightarrow>
   update_latest_checkpoint latest h =
     h\<lparr>checkpoints_since_eval := checkpoints_since_eval h + 1, latest_checkpoint := latest\<rparr>"
  by (simp add: update_latest_checkpoint_def Let_def)

lemma update_unchanged:
  "\<not> checkpoint_lock h \<Longrightarrow> latest = latest_checkpoint h \<Longrightarrow>
   update_latest_checkpoint latest h = h"
  by (simp add: update_latest_checkpoint_def Let_def)

lemma update_locked:
  "checkpoint_lock h \<Longrightarrow> update_latest_checkpoint latest h = h"
  by (simp add: update_latest_checkpoint_def)

lemma update_frame:
  "update_latest_checkpoint latest h
     \<lparr>checkpoints_since_eval := checkpoints_since_eval h,
      latest_checkpoint := latest_checkpoint h\<rparr> = h"
  by (simp add: update_latest_checkpoint_def Let_def)

lemma update_eval_lock [simp]:
  "eval_lock (update_latest_checkpoint latest h) = eval_lock h"
  by (simp add: update_latest_checkpoint_def Let_def)

lemma update_checkpoint_lock [simp]:
  "checkpoint_lock (update_latest_checkpoint latest h) = checkpoint_lock h"
  by (simp add: update_latest_checkpoint_def Let_def)

lemma update_eval_every [simp]:
  "eval_every (update_latest_checkpoint latest h) = eval_every h"
  by (simp add: update_latest_checkpoint_def Let_def)

lemma update_eval_steps [simp]:
  "eval_steps (update_latest_checkpoint latest h) = eval_steps h"
  by (simp add: update_latest_checkpoint_def Let_def)

lemma update_calls [simp]:
  "calls (update_latest_checkpoint latest h) = calls h"
  by (simp add: update_latest_checkpoint_def Let_def)

lemma update_file_writer [simp]:
  "file_writer (update_latest_checkpoint latest h) = file_writer h"
  by (simp add: update_latest_checkpoint_def Let_def)

lemma update_flushed [simp]:
  "flushed (update_latest_checkpoint latest h) = flushed h"
  by (simp add: update_latest_checkpoint_def Let_def)

lemma update_counter:
  "checkpoints_since_eval (update_latest_checkpoint latest h) =
     (if \<not> checkpoint_lock h \<and> latest \<noteq> latest_checkpoint h
      then checkpoints_since_eval h + 1 else checkpoints_since_eval h)"
  by (simp add: update_latest_checkpoint_def Let_def)

lemma update_latest:
  "latest_checkpoint (update_latest_checkpoint latest h) =
     (if checkpoint_lock h then latest_checkpoint h else latest)"
  by (simp add: update_latest_checkpoint_def Let_def)

lemma update_all_free:
  "\<not> checkpoint_lock h \<Longrightarrow>
   checkpoints_since_eval (update_all ls h) =
     checkpoints_since_eval h + int (changes (latest_checkpoint h) ls)
   \<and> latest_checkpoint (update_all ls h) = last (latest_checkpoint h # ls)
   \<and> \<not> checkpoint_lock (update_all ls h)"
proof (induction ls arbitrary: h)
  case Nil
  then show ?case by simp
next
  case (Cons l ls)
  let ?h = "update_latest_checkpoint l h"
  from Cons.prems have free: "\<not> checkpoint_lock ?h" by simp
  from Cons.prems have lat: "latest_checkpoint ?h = l" by (simp add: update_latest)
  from Cons.prems have cnt:
    "checkpoints_since_eval ?h = checkpoints_since_eval h + (if l = latest_checkpoint h then 0 else 1)"
    by (simp add: update_counter)
  from Cons.IH [OF free] lat cnt show ?case by simp
qed

text \<open>
  Claim C2. Each completed call of the checkpoint tracker's update adds exactly 1 to
  \<open>checkpoints_since_eval\<close> and stores the new identifier when the observed latest
  checkpoint differs from the stored one, and leaves both fields as they were when it is
  the same; a call that fails the non-blocking acquire of the checkpoint guard changes
  nothing; and in every case the hook is the same outside these two fields. Over a whole
  sequence of observations, starting with the guard free, the counter grows by the number
  of changes of the identifier.
\<close>

theorem update_latest_checkpoint_counts:
  "(\<not> checkpoint_lock h \<and> latest \<noteq> latest_checkpoint h \<longrightarrow>
      checkpoints_since_eval (update_latest_checkpoint latest h) = checkpoints_since_eval h + 1
      \<and> latest_checkpoint (update_latest_checkpoint latest h) = latest)
   \<and> (\<not> checkpoint_lock h \<and> latest = latest_checkpoint h \<longrightarrow>
      update_latest_checkpoint latest h = h)
   \<and> (checkpoint_lock h \<longrightarrow> update_latest_checkpoint latest h = h)
   \<and> update_latest_checkpoint latest h
        \<lparr>checkpoints_since_eval := checkpoints_since_eval h,
         latest_checkpoint := latest_checkpoint h\<rparr> = h
   \<and> (\<not> checkpoint_lock h \<longrightarrow>
        checkpoints_since_eval (update_all ls h) =
          checkpoints_since_eval h + int (changes (latest_checkpoint h) ls))"
  by (simp add: update_changed update_unchanged update_locked update_frame update_all_free)

theorem update_latest_checkpoint_counts_witness:
  "checkpoints_since_eval
     (update_latest_checkpoint (Some ''model.ckpt-10'') (EvaluationRunHook ''job'' (PyInt 1) None)) = 1
   \<and> latest_checkpoint
     (update_latest_checkpoint (Some ''model.ckpt-10'') (EvaluationRunHook ''job'' (PyInt 1) None))
       = Some ''model.ckpt-10''
   \<and> update_latest_checkpoint None (EvaluationRunHook ''job'' (PyInt 1) None)
       = EvaluationRunHook ''job'' (PyInt 1) None
   \<and> update_latest_checkpoint (Some ''model.ckpt-10'')
        ((EvaluationRunHook ''job'' (PyInt 1) None)\<lparr>checkpoint_lock := True\<rparr>)
       = (EvaluationRunHook ''job'' (PyInt 1) None)\<lparr>checkpoint_lock := True\<rparr>
   \<and> checkpoints_since_eval
        (update_all [Some ''model.ckpt-10'', Some ''model.ckpt-10'', Some ''model.ckpt-20'']
           (EvaluationRunHook ''job'' (PyInt 1) None)) = 2"
  using
    update_latest_checkpoint_counts
      [of "EvaluationRunHook ''job'' (PyInt 1) None" "Some ''model.ckpt-10''"
          "[Some ''model.ckpt-10'', Some ''model.ckpt-10'', Some ''model.ckpt-20'']"]
    update_latest_checkpoint_counts
      [of "EvaluationRunHook ''job'' (PyInt 1) None" None "[]"]
    update_latest_checkpoint_counts
      [of "(EvaluationRunHook ''job'' (PyInt 1) None)\<lparr>checkpoint_lock := True\<rparr>"
          "Some ''model.ckpt-10''" "[]"]
  by (simp add: EvaluationRunHook_def)


section \<open>Evaluation runner: properties\<close>



lemma eval_loop_summaries_inv:
  assumes "eval_loop env steps st = Some st'"
  shows "(summaries st = None \<longleftrightarrow> eval_step st = 0) \<longrightarrow>
         (summaries st' = None \<longleftrightarrow> eval_step st' = 0)"
proof (rule eval_loop.raw_induct [OF _ assms])
  fix f env steps st st'
  assume IH: "\<And>env steps st st'. f env steps st = Some st' \<Longrightarrow>
                (summaries st = None \<longleftrightarrow> eval_step st = 0) \<longrightarrow>
                (summaries st' = None \<longleftrightarrow> eval_step st' = 0)"
    and body: "(if \<not> should_stop env (eval_step st)
         \<and> (case steps of None \<Rightarrow> True | Some n \<Rightarrow> int (eval_step st) < n)
      then
        (case run_summary env (eval_step st) of
           Produced s \<Rightarrow>
             f env steps (st\<lparr>summaries := Some s, eval_step := eval_step st + 1\<rparr>)
         | OutOfRangeError \<Rightarrow> Some st
         | CancelledError \<Rightarrow> Some st
         | Failure e \<Rightarrow> Some (st\<lparr>coord_exc := Some e\<rparr>))
      else Some st) = Some st'"
  show "(summaries st = None \<longleftrightarrow> eval_step st = 0) \<longrightarrow>
        (summaries st' = None \<longleftrightarrow> eval_step st' = 0)"
    using body IH [of env steps "st\<lparr>summaries := Some s, eval_step := eval_step st + 1\<rparr>" st' for s]
    by (auto split: if_splits run_result.splits)
qed

lemma eval_loop_stops_at:
  assumes "eval_step st \<le> k"
    and "\<forall>i. eval_step st \<le> i \<and> i < k \<longrightarrow>
           \<not> should_stop env i \<and> (case steps of None \<Rightarrow> True | Some n \<Rightarrow> int i < n)
           \<and> (\<exists>s. run_summary env i = Produced s)"
    and "should_stop env k \<or> (\<exists>n. steps = Some n \<and> n \<le> int k)
         \<or> run_summary env k = OutOfRangeError \<or> run_summary env k = CancelledError"
  shows "\<exists>st'. eval_loop env steps st = Some st' \<and> eval_step st' = k
               \<and> coord_exc st' = coord_exc st"
  using assms
proof (induction "k - eval_step st" arbitrary: st)
  case 0
  then have k: "eval_step st = k" by simp
  from 0(4) show ?case
    by (subst eval_loop.simps) (auto simp: k split: option.splits)
next
  case (Suc d)
  then have lt: "eval_step st < k" by simp
  with Suc.prems(2) obtain s where
    c: "\<not> should_stop env (eval_step st)"
       "(case steps of None \<Rightarrow> True | Some n \<Rightarrow> int (eval_step st) < n)"
       "run_summary env (eval_step st) = Produced s"
    by (metis order_refl)
  let ?st = "st\<lparr>summaries := Some s, eval_step := eval_step st + 1\<rparr>"
  have "\<exists>st'. eval_loop env steps ?st = Some st' \<and> eval_step st' = k
               \<and> coord_exc st' = coord_exc ?st"
  proof (rule Suc.hyps(1))
    show "d = k - eval_step ?st" using Suc.hyps(2) by simp
    show "eval_step ?st \<le> k" using lt by simp
    show "\<forall>i. eval_step ?st \<le> i \<and> i < k \<longrightarrow>
           \<not> should_stop env i \<and> (case steps of None \<Rightarrow> True | Some n \<Rightarrow> int i < n)
           \<and> (\<exists>s. run_summary env i = Produced s)"
      using Suc.prems(2) by simp
    show "should_stop env k \<or> (\<exists>n. steps = Some n \<and> n \<le> int k)
         \<or> run_summary env k = OutOfRangeError \<or> run_summary env k = CancelledError"
      by (rule Suc.prems(3))
  qed
  then show ?case
    using c by (subst eval_loop.simps) simp
qed




lemma run_eval_cases:
  "run_eval env h = Some r \<Longrightarrow>
   (\<exists>e. r = Raised e h)
   \<or> (\<exists>s g. r = Returned (h\<lparr>file_writer := file_writer h @ [(s, g)], flushed := flushed h + 1\<rparr>))"
  by (auto simp: run_eval_def split: sum.splits option.splits)

lemma run_eval_eval_lock:
  "run_eval env h = Some r \<Longrightarrow> eval_lock (state_of r) = eval_lock h"
  by (drule run_eval_cases) auto

lemma run_eval_calls:
  "run_eval env h = Some r \<Longrightarrow> calls (state_of r) = calls h"
  by (drule run_eval_cases) auto

lemma run_eval_counter:
  "run_eval env h = Some r \<Longrightarrow> checkpoints_since_eval (state_of r) = checkpoints_since_eval h"
  by (drule run_eval_cases) auto

lemma run_eval_not_blocked:
  "run_eval env h \<noteq> Some (Blocked h')"
  by (auto simp: run_eval_def split: sum.splits option.splits)

lemma run_eval_returned:
  "run_eval env h = Some (Returned h') \<Longrightarrow>
   length (file_writer h') = length (file_writer h) + 1 \<and> flushed h' = flushed h + 1"
  by (drule run_eval_cases) auto

lemma state_of_map_outcome [simp]: "state_of (map_outcome f r) = f (state_of r)"
  by (cases r) simp_all

lemma log_call_simps [simp]:
  "calls (log_call e h) = calls h @ [e]"
  "eval_lock (log_call e h) = eval_lock h"
  "checkpoint_lock (log_call e h) = checkpoint_lock h"
  "checkpoints_since_eval (log_call e h) = checkpoints_since_eval h"
  "latest_checkpoint (log_call e h) = latest_checkpoint h"
  "eval_every (log_call e h) = eval_every h"
  "eval_steps (log_call e h) = eval_steps h"
  "file_writer (log_call e h) = file_writer h"
  "flushed (log_call e h) = flushed h"
  by (simp_all add: log_call_def)

lemma release_simps [simp]:
  "calls (release_eval_lock h) = calls h @ [Eval_Lock_Release]"
  "eval_lock (release_eval_lock h) = False"
  "checkpoints_since_eval (release_eval_lock h) = checkpoints_since_eval h"
  "file_writer (release_eval_lock h) = file_writer h"
  "flushed (release_eval_lock h) = flushed h"
  "latest_checkpoint (release_eval_lock h) = latest_checkpoint h"
  "checkpoint_lock (release_eval_lock h) = checkpoint_lock h"
  "eval_every (release_eval_lock h) = eval_every h"
  "eval_steps (release_eval_lock h) = eval_steps h"
  by (simp_all add: release_eval_lock_def)

lemma update_log_call:
  "update_latest_checkpoint l (log_call e h) = log_call e (update_latest_checkpoint l h)"
  by (simp add: update_latest_checkpoint_def log_call_def Let_def)

lemma after_run_busy:
  "eval_lock h \<Longrightarrow>
   after_run env h =
     Some (Returned (log_call (Eval_Lock_Acquire False)
       (update_latest_checkpoint (latest_in_dir env) (log_call Update_Called h))))"
  by (simp add: after_run_def Let_def)






section \<open>Evaluation hook: the per-step callback\<close>







section \<open>Evaluation runner: the loop and the summary record\<close>



lemma eval_loop_bounded:
  assumes "\<forall>i. \<not> should_stop env i \<and> (\<exists>s. run_summary env i = Produced s)"
  shows "\<exists>st. eval_loop env (Some n) loop_init = Some st \<and> eval_step st = nat n
              \<and> coord_exc st = None"
proof -
  have "\<exists>st'. eval_loop env (Some n) loop_init = Some st' \<and> eval_step st' = nat n
               \<and> coord_exc st' = coord_exc loop_init"
  proof (rule eval_loop_stops_at)
    show "eval_step loop_init \<le> nat n" by (simp add: loop_init_def)
    show "\<forall>i. eval_step loop_init \<le> i \<and> i < nat n \<longrightarrow>
           \<not> should_stop env i \<and> (case Some n of None \<Rightarrow> True | Some n \<Rightarrow> int i < n)
           \<and> (\<exists>s. run_summary env i = Produced s)"
      using assms by auto
    show "should_stop env (nat n) \<or> (\<exists>m. Some n = Some m \<and> m \<le> int (nat n))
         \<or> run_summary env (nat n) = OutOfRangeError \<or> run_summary env (nat n) = CancelledError"
      by simp
  qed
  then show ?thesis by (simp add: loop_init_def)
qed






lemma eval_loop_unbound:
  assumes "eval_loop env steps loop_init = Some st"
  shows "summaries st = None \<longleftrightarrow> eval_step st = 0"
  using eval_loop_summaries_inv [OF assms] by (simp add: loop_init_def)

lemma run_eval_no_iteration:
  assumes "restore env (latest_checkpoint h) = Inr g"
    and "eval_loop env (eval_steps h) loop_init = Some st"
    and "eval_step st = 0"
  shows "run_eval env h = Some (Raised UnboundLocalError h)"
  using assms eval_loop_unbound [OF assms(2)] by (simp add: run_eval_def)

lemma run_eval_some_iteration:
  assumes "restore env (latest_checkpoint h) = Inr g"
    and "eval_loop env (eval_steps h) loop_init = Some st"
    and "0 < eval_step st"
  shows "\<exists>s. run_eval env h =
           Some (Returned (h\<lparr>file_writer := file_writer h @ [(s, g)], flushed := flushed h + 1\<rparr>))"
  using assms eval_loop_unbound [OF assms(2)] by (auto simp: run_eval_def)

lemma eval_loop_stops_at_once:
  assumes "(\<exists>n. steps = Some n \<and> n \<le> 0) \<or> should_stop env 0
           \<or> run_summary env 0 = OutOfRangeError \<or> run_summary env 0 = CancelledError"
  shows "\<exists>st. eval_loop env steps loop_init = Some st \<and> eval_step st = 0"
proof -
  have "\<exists>st'. eval_loop env steps loop_init = Some st' \<and> eval_step st' = 0
               \<and> coord_exc st' = coord_exc loop_init"
  proof (rule eval_loop_stops_at)
    show "eval_step loop_init \<le> 0" by (simp add: loop_init_def)
    show "\<forall>i. eval_step loop_init \<le> i \<and> i < 0 \<longrightarrow>
           \<not> should_stop env i \<and> (case steps of None \<Rightarrow> True | Some n \<Rightarrow> int i < n)
           \<and> (\<exists>s. run_summary env i = Produced s)"
      by simp
    show "should_stop env 0 \<or> (\<exists>n. steps = Some n \<and> n \<le> int 0)
         \<or> run_summary env 0 = OutOfRangeError \<or> run_summary env 0 = CancelledError"
      using assms by auto
  qed
  then show ?thesis by blast
qed

text \<open>
  Claim C10. When the preparation of an evaluation pass succeeds and its loop completes
  no iteration (because \<^verbatim>\<open>eval_steps\<close> is 0 or less, or the stop is requested before
  the first loop test, or the first \<^verbatim>\<open>session.run\<close> signals exhaustion or cancellation;
  in general, whenever the loop ends with \<open>eval_step = 0\<close>), the evaluation runner raises
  \<^verbatim>\<open>UnboundLocalError\<close> for the unbound local \<^verbatim>\<open>summaries\<close> and leaves the hook
  as it found it: no record is written and the writer is not flushed.
\<close>

theorem run_eval_zero_iterations:
  assumes "restore env (latest_checkpoint h) = Inr g"
  shows
    "((\<exists>n. eval_steps h = Some n \<and> n \<le> 0) \<or> should_stop env 0
        \<or> run_summary env 0 = OutOfRangeError \<or> run_summary env 0 = CancelledError \<longrightarrow>
        run_eval env h = Some (Raised UnboundLocalError h))
     \<and> (\<forall>st. eval_loop env (eval_steps h) loop_init = Some st \<and> eval_step st = 0 \<longrightarrow>
        run_eval env h = Some (Raised UnboundLocalError h))"
proof (intro conjI impI allI)
  assume "(\<exists>n. eval_steps h = Some n \<and> n \<le> 0) \<or> should_stop env 0
        \<or> run_summary env 0 = OutOfRangeError \<or> run_summary env 0 = CancelledError"
  from eval_loop_stops_at_once [OF this] obtain st where
    "eval_loop env (eval_steps h) loop_init = Some st" "eval_step st = 0" by blast
  with assms show "run_eval env h = Some (Raised UnboundLocalError h)"
    by (rule run_eval_no_iteration)
next
  fix st
  assume "eval_loop env (eval_steps h) loop_init = Some st \<and> eval_step st = 0"
  with assms show "run_eval env h = Some (Raised UnboundLocalError h)"
    by (blast intro: run_eval_no_iteration)
qed

theorem run_eval_zero_iterations_witness:
  "run_eval (endless_env Python3 (Some ''model.ckpt-20'') 20)
     (hook_at (PyInt 1) (Some 0) ''model.ckpt-20'' 0)
   = Some (Raised UnboundLocalError (hook_at (PyInt 1) (Some 0) ''model.ckpt-20'' 0))
   \<and> run_eval (finite_env Python3 (Some ''model.ckpt-20'') 20 0)
     (hook_at (PyInt 1) None ''model.ckpt-20'' 0)
   = Some (Raised UnboundLocalError (hook_at (PyInt 1) None ''model.ckpt-20'' 0))
   \<and> file_writer (hook_at (PyInt 1) (Some 0) ''model.ckpt-20'' 0) = []"
proof -
  have r1: "restore (endless_env Python3 (Some ''model.ckpt-20'') 20)
              (latest_checkpoint (hook_at (PyInt 1) (Some 0) ''model.ckpt-20'' 0)) = Inr 20"
    by (simp add: endless_env_def hook_at_def restore_step_def)
  have r2: "restore (finite_env Python3 (Some ''model.ckpt-20'') 20 0)
              (latest_checkpoint (hook_at (PyInt 1) None ''model.ckpt-20'' 0)) = Inr 20"
    by (simp add: finite_env_def hook_at_def restore_step_def)
  have 1: "run_eval (endless_env Python3 (Some ''model.ckpt-20'') 20)
     (hook_at (PyInt 1) (Some 0) ''model.ckpt-20'' 0)
   = Some (Raised UnboundLocalError (hook_at (PyInt 1) (Some 0) ''model.ckpt-20'' 0))"
    using run_eval_zero_iterations [OF r1]
    by (simp add: hook_at_def EvaluationRunHook_def)
  have 2: "run_eval (finite_env Python3 (Some ''model.ckpt-20'') 20 0)
     (hook_at (PyInt 1) None ''model.ckpt-20'' 0)
   = Some (Raised UnboundLocalError (hook_at (PyInt 1) None ''model.ckpt-20'' 0))"
    using run_eval_zero_iterations [OF r2]
    by (simp add: finite_env_def)
  from 1 2 show ?thesis by (simp add: hook_at_def EvaluationRunHook_def)
qed


section \<open>Evaluation hook: the end callback\<close>

lemma end_hook_busy:
  "eval_lock h \<Longrightarrow>
   end_hook env h =
     Some (Blocked (update_latest_checkpoint (latest_in_dir env) (log_call Update_Called h)))"
  by (simp add: end_hook_def Let_def)

lemma end_hook_free:
  "\<not> eval_lock h \<Longrightarrow>
   end_hook env h =
     map_option (map_outcome release_eval_lock)
       (run_eval env (log_call Run_Eval_Called (log_call (Eval_Lock_Acquire True)
          ((update_latest_checkpoint (latest_in_dir env) (log_call Update_Called h))
             \<lparr>eval_lock := True\<rparr>))))"
  by (simp add: end_hook_def Let_def)

lemma end_hook_returned:
  assumes "end_hook env h = Some (Returned h')"
  shows "calls h' = calls h @ [Update_Called, Eval_Lock_Acquire True, Run_Eval_Called, Eval_Lock_Release]
     \<and> length (file_writer h') = length (file_writer h) + 1
     \<and> flushed h' = flushed h + 1
     \<and> \<not> eval_lock h'
     \<and> checkpoints_since_eval h' =
         checkpoints_since_eval (update_latest_checkpoint (latest_in_dir env) h)"
proof (cases "eval_lock h")
  case True
  with assms show ?thesis by (simp add: end_hook_busy)
next
  case False
  let ?h2 = "log_call Run_Eval_Called (log_call (Eval_Lock_Acquire True)
          ((update_latest_checkpoint (latest_in_dir env) (log_call Update_Called h))
             \<lparr>eval_lock := True\<rparr>))"
  from assms False obtain r where
    r: "run_eval env ?h2 = Some r" "map_outcome release_eval_lock r = Returned h'"
    by (auto simp: end_hook_free)
  from r(2) obtain h3 where h3: "r = Returned h3" "h' = release_eval_lock h3"
    by (cases r) auto
  from run_eval_returned [of env ?h2 h3] run_eval_calls [of env ?h2 r]
    run_eval_counter [of env ?h2 r] r(1) h3
  show ?thesis by (simp add: update_log_call)
qed

lemma end_hook_releases:
  assumes "end_hook env h = Some r" and "\<not> eval_lock h"
  shows "\<not> eval_lock (state_of r) \<and> (\<forall>h'. r \<noteq> Blocked h')"
proof -
  let ?h2 = "log_call Run_Eval_Called (log_call (Eval_Lock_Acquire True)
          ((update_latest_checkpoint (latest_in_dir env) (log_call Update_Called h))
             \<lparr>eval_lock := True\<rparr>))"
  from assms obtain r0 where
    r0: "run_eval env ?h2 = Some r0" "r = map_outcome release_eval_lock r0"
    by (auto simp: end_hook_free)
  from run_eval_not_blocked [of env ?h2] r0 show ?thesis
    by (cases r0) auto
qed

lemma end_hook_returns:
  assumes "\<not> eval_lock h"
    and "restore env (latest_checkpoint
           (update_latest_checkpoint (latest_in_dir env) h)) = Inr g"
    and "eval_steps h = Some n" and "0 < n"
    and "\<forall>i. \<not> should_stop env i \<and> (\<exists>s. run_summary env i = Produced s)"
  shows "\<exists>h'. end_hook env h = Some (Returned h')"
proof -
  let ?h2 = "log_call Run_Eval_Called (log_call (Eval_Lock_Acquire True)
          ((update_latest_checkpoint (latest_in_dir env) (log_call Update_Called h))
             \<lparr>eval_lock := True\<rparr>))"
  from eval_loop_bounded [OF assms(5), of n] obtain st where
    st: "eval_loop env (Some n) loop_init = Some st" "eval_step st = nat n" by blast
  have "\<exists>s. run_eval env ?h2 =
           Some (Returned (?h2\<lparr>file_writer := file_writer ?h2 @ [(s, g)], flushed := flushed ?h2 + 1\<rparr>))"
  proof (rule run_eval_some_iteration)
    show "restore env (latest_checkpoint ?h2) = Inr g"
      using assms(2) by (simp add: update_log_call)
    show "eval_loop env (eval_steps ?h2) loop_init = Some st"
      using st(1) assms(3) by simp
    show "0 < eval_step st" using st(2) assms(4) by simp
  qed
  with assms(1) show ?thesis by (auto simp: end_hook_free)
qed

text \<open>
  Claim C3. \<^verbatim>\<open>end\<close> calls the checkpoint update first; \<open>u\<close> is the hook as the
  update leaves it. While another thread holds the evaluation guard the call waits at
  the acquire, it does not return. With the guard free it takes the guard and runs the
  evaluation runner once, whatever the counter is, and ends as the runner does with the
  guard released. When it has returned, exactly one evaluation pass has been run and
  has completed: one call of the runner in the call log, one more record in the file
  writer and one more flush. It does return when the checkpoint can be restored, the
  step bound is positive and the input never signals a stop.
\<close>

theorem end_hook_final_evaluation:
  assumes "u = update_latest_checkpoint (latest_in_dir env) (log_call Update_Called h)"
  shows
   "(eval_lock h \<longrightarrow> end_hook env h = Some (Blocked u))
    \<and> (\<not> eval_lock h \<longrightarrow>
         end_hook env h =
           map_option (map_outcome release_eval_lock)
             (run_eval env
                (log_call Run_Eval_Called
                   (log_call (Eval_Lock_Acquire True) (u\<lparr>eval_lock := True\<rparr>)))))
    \<and> (\<forall>h'. end_hook env h = Some (Returned h') \<longrightarrow>
         calls h' = calls h @ [Update_Called, Eval_Lock_Acquire True, Run_Eval_Called,
                               Eval_Lock_Release]
         \<and> length (file_writer h') = length (file_writer h) + 1
         \<and> flushed h' = flushed h + 1
         \<and> \<not> eval_lock h'
         \<and> checkpoints_since_eval h' = checkpoints_since_eval u)
    \<and> (\<forall>r. \<not> eval_lock h \<and> end_hook env h = Some r \<longrightarrow>
         \<not> eval_lock (state_of r) \<and> (\<forall>h'. r \<noteq> Blocked h'))
    \<and> (\<not> eval_lock h \<and> restore env (latest_checkpoint u) = Inr g
         \<and> eval_steps h = Some n \<and> 0 < n
         \<and> (\<forall>i. \<not> should_stop env i \<and> (\<exists>s. run_summary env i = Produced s)) \<longrightarrow>
         (\<exists>h'. end_hook env h = Some (Returned h')))"
proof (intro conjI impI allI)
  assume "eval_lock h"
  then show "end_hook env h = Some (Blocked u)" by (simp add: end_hook_busy assms)
next
  assume "\<not> eval_lock h"
  then show "end_hook env h =
           map_option (map_outcome release_eval_lock)
             (run_eval env
                (log_call Run_Eval_Called
                   (log_call (Eval_Lock_Acquire True) (u\<lparr>eval_lock := True\<rparr>))))"
    by (simp add: end_hook_free assms)
next
  fix h' assume r: "end_hook env h = Some (Returned h')"
  from end_hook_returned [OF r]
  show "calls h' = calls h @ [Update_Called, Eval_Lock_Acquire True, Run_Eval_Called,
                               Eval_Lock_Release]"
    and "length (file_writer h') = length (file_writer h) + 1"
    and "flushed h' = flushed h + 1"
    and "\<not> eval_lock h'"
    and "checkpoints_since_eval h' = checkpoints_since_eval u"
    by (simp_all add: assms update_log_call)
next
  fix r assume "\<not> eval_lock h \<and> end_hook env h = Some r"
  then show "\<not> eval_lock (state_of r)" using end_hook_releases by blast
next
  fix r h' assume "\<not> eval_lock h \<and> end_hook env h = Some r"
  then show "r \<noteq> Blocked h'" using end_hook_releases by blast
next
  assume a: "\<not> eval_lock h \<and> restore env (latest_checkpoint u) = Inr g
         \<and> eval_steps h = Some n \<and> 0 < n
         \<and> (\<forall>i. \<not> should_stop env i \<and> (\<exists>s. run_summary env i = Produced s))"
  show "\<exists>h'. end_hook env h = Some (Returned h')"
  proof (rule end_hook_returns)
    show "\<not> eval_lock h" using a by simp
    show "restore env (latest_checkpoint (update_latest_checkpoint (latest_in_dir env) h)) = Inr g"
      using a by (simp add: assms update_log_call)
    show "eval_steps h = Some n" using a by simp
    show "0 < n" using a by simp
    show "\<forall>i. \<not> should_stop env i \<and> (\<exists>s. run_summary env i = Produced s)" using a by simp
  qed
qed


theorem end_hook_final_evaluation_witness:
  "(\<exists>h'. end_hook (endless_env Python3 (Some ''model.ckpt-20'') 20)
            (hook_at (PyInt 1) (Some 2) ''model.ckpt-20'' 0) = Some (Returned h')
         \<and> calls h' = [Update_Called, Eval_Lock_Acquire True, Run_Eval_Called, Eval_Lock_Release]
         \<and> length (file_writer h') = 1 \<and> flushed h' = 1 \<and> \<not> eval_lock h'
         \<and> checkpoints_since_eval h' = 0)
   \<and> (\<exists>h'. end_hook (endless_env Python3 (Some ''model.ckpt-30'') 30)
            ((hook_at (PyInt 1) (Some 2) ''model.ckpt-20'' 0)\<lparr>eval_lock := True\<rparr>)
              = Some (Blocked h')
         \<and> latest_checkpoint h' = Some ''model.ckpt-30'' \<and> checkpoints_since_eval h' = 1)"
proof -
  let ?env = "endless_env Python3 (Some ''model.ckpt-20'') 20"
  let ?h = "hook_at (PyInt 1) (Some 2) ''model.ckpt-20'' 0"
  let ?u = "update_latest_checkpoint (latest_in_dir ?env) (log_call Update_Called ?h)"
  note T = end_hook_final_evaluation [of ?u ?env ?h 20 2, OF refl]
  have pre: "\<not> eval_lock ?h \<and> restore ?env (latest_checkpoint ?u) = Inr 20
         \<and> eval_steps ?h = Some 2 \<and> (0::int) < 2
         \<and> (\<forall>i. \<not> should_stop ?env i \<and> (\<exists>s. run_summary ?env i = Produced s))"
    by (simp add: hook_at_def EvaluationRunHook_def endless_env_def restore_step_def
        update_latest)
  with T obtain h' where h': "end_hook ?env ?h = Some (Returned h')" by blast
  with T have "calls h' = calls ?h @ [Update_Called, Eval_Lock_Acquire True, Run_Eval_Called,
                               Eval_Lock_Release]
         \<and> length (file_writer h') = length (file_writer ?h) + 1
         \<and> flushed h' = flushed ?h + 1
         \<and> \<not> eval_lock h'
         \<and> checkpoints_since_eval h' = checkpoints_since_eval ?u"
    by blast
  then have 1: "calls h' = [Update_Called, Eval_Lock_Acquire True, Run_Eval_Called, Eval_Lock_Release]
         \<and> length (file_writer h') = 1 \<and> flushed h' = 1 \<and> \<not> eval_lock h'
         \<and> checkpoints_since_eval h' = 0"
    by (simp add: hook_at_def EvaluationRunHook_def endless_env_def update_counter)
  let ?env2 = "endless_env Python3 (Some ''model.ckpt-30'') 30"
  let ?b = "(hook_at (PyInt 1) (Some 2) ''model.ckpt-20'' 0)\<lparr>eval_lock := True\<rparr>"
  let ?ub = "update_latest_checkpoint (latest_in_dir ?env2) (log_call Update_Called ?b)"
  have "eval_lock ?b" by simp
  with end_hook_final_evaluation [of ?ub ?env2 ?b 30 2, OF refl]
  have b: "end_hook ?env2 ?b = Some (Blocked ?ub)" by blast
  have 2: "latest_checkpoint ?ub = Some ''model.ckpt-30'' \<and> checkpoints_since_eval ?ub = 1"
    by (simp add: hook_at_def EvaluationRunHook_def endless_env_def update_counter update_latest)
  from h' 1 b 2 show ?thesis by blast
qed


section \<open>Dispatcher and training session driver: properties\<close>


lemma dispatch_task:
  assumes "TF_CONFIG env = Some text" and "text \<noteq> []"
    and "json_loads env text = Inr (JDict kvs)"
    and "(case map_of kvs ''task'' of None \<Rightarrow> JDict [] | Some v \<Rightarrow> v) = JDict task"
    and "cluster = (case map_of kvs ''cluster'' of None \<Rightarrow> JNull | Some v \<Rightarrow> v)"
    and "job_name = (case map_of task ''type'' of None \<Rightarrow> JNull | Some v \<Rightarrow> v)"
    and "task_index = (case map_of task ''index'' of None \<Rightarrow> JNull | Some v \<Rightarrow> v)"
  shows "dispatch env args =
     (if job_name = JNull \<or> task_index = JNull then Trains (run [] True args)
      else
        (case start_server env cluster job_name task_index of
           Inl e \<Rightarrow> Fails e
         | Inr target \<Rightarrow>
             if job_name = JStr ''ps'' then Serves_Forever target
             else if job_name = JStr ''master'' \<or> job_name = JStr ''worker''
             then Trains (run target (job_name = JStr ''master'') args)
             else Returns_None target))"
  using assms by (simp add: dispatch_def split: sum.splits)

lemma run_hooks:
  "hooks (run target chief args) =
     (if chief
      then [EvaluationRunHook (job_dir args) (eval_frequency args) (eval_steps_arg args)]
      else [])"
  by (simp add: run_def)

lemma run_fields [simp]:
  "master (run target chief args) = target"
  "is_chief (run target chief args) = chief"
  "session_checkpoint_dir (run target chief args) = job_dir args"
  by (simp_all add: run_def Let_def)

text \<open>
  Claim C8. The training session gets the evaluation hook exactly when
  \<^verbatim>\<open>is_chief\<close> holds: \<^verbatim>\<open>run\<close> passes the one-element list with the hook when
  \<^verbatim>\<open>is_chief\<close> is true and the empty list otherwise; and for a \<^verbatim>\<open>TF_CONFIG\<close>
  whose task has a role and an index and whose server starts, the dispatcher runs a
  \<^verbatim>\<open>worker\<close> with \<^verbatim>\<open>is_chief\<close> false and no hook, and a \<^verbatim>\<open>master\<close> with
  \<^verbatim>\<open>is_chief\<close> true and exactly the evaluation hook.
\<close>

theorem hook_attached_iff_chief:
  assumes "TF_CONFIG env = Some text" and "text \<noteq> []"
    and "json_loads env text = Inr (JDict kvs)"
    and "map_of kvs ''task'' = Some (JDict task)"
    and "map_of task ''type'' = Some (JStr role)"
    and "map_of task ''index'' = Some (JNum i)"
    and "start_server env (case map_of kvs ''cluster'' of None \<Rightarrow> JNull | Some v \<Rightarrow> v)
           (JStr role) (JNum i) = Inr target"
  shows
    "(role = ''worker'' \<longrightarrow>
        (\<exists>s. dispatch env args = Trains s \<and> \<not> is_chief s \<and> hooks s = [] \<and> master s = target))
     \<and> (role = ''master'' \<longrightarrow>
        (\<exists>s. dispatch env args = Trains s \<and> is_chief s \<and> master s = target
           \<and> hooks s = [EvaluationRunHook (job_dir args) (eval_frequency args)
                          (eval_steps_arg args)]))
     \<and> (\<forall>t c. is_chief (run t c args) = c
           \<and> (hooks (run t c args) \<noteq> [] \<longleftrightarrow> c)
           \<and> (c \<longrightarrow> hooks (run t c args) =
                 [EvaluationRunHook (job_dir args) (eval_frequency args) (eval_steps_arg args)]))"
proof -
  have d: "dispatch env args =
     (if JStr role = JStr ''ps'' then Serves_Forever target
      else if JStr role = JStr ''master'' \<or> JStr role = JStr ''worker''
      then Trains (run target (JStr role = JStr ''master'') args)
      else Returns_None target)"
    using dispatch_task [OF assms(1-3), of task _ "JStr role" "JNum i" args] assms(4-7)
    by simp
  show ?thesis
    using d by (simp add: run_hooks)
qed

theorem hook_attached_iff_chief_witness:
  "(\<exists>s. dispatch (process_with (config_text ''worker'' ''2'') (config_json ''worker'' 2))
            default_args = Trains s
        \<and> \<not> is_chief s \<and> hooks s = [] \<and> master s = ''grpc://10.0.0.4:2222'')
   \<and> (\<exists>s. dispatch (process_with (config_text ''master'' ''0'') (config_json ''master'' 0))
            default_args = Trains s
        \<and> is_chief s \<and> master s = ''grpc://10.0.0.1:2222''
        \<and> hooks s = [EvaluationRunHook ''out'' (PyInt 1) None])"
proof -
  have w: "\<exists>s. dispatch (process_with (config_text ''worker'' ''2'') (config_json ''worker'' 2))
            default_args = Trains s
        \<and> \<not> is_chief s \<and> hooks s = [] \<and> master s = ''grpc://10.0.0.4:2222''"
    using hook_attached_iff_chief
      [of "process_with (config_text ''worker'' ''2'') (config_json ''worker'' 2)"
          "config_text ''worker'' ''2''"
          "[(''cluster'', cluster_json), (''task'', task_json ''worker'' 2)]"
          "[(''type'', JStr ''worker''), (''index'', JNum 2)]"
          "''worker''" 2 "''grpc://10.0.0.4:2222''" default_args]
    by (simp add: process_with_def config_text_def config_json_def task_json_def
        loads_table_def cluster_server_def cluster_json_def)
  have m: "\<exists>s. dispatch (process_with (config_text ''master'' ''0'') (config_json ''master'' 0))
            default_args = Trains s
        \<and> is_chief s \<and> master s = ''grpc://10.0.0.1:2222''
        \<and> hooks s = [EvaluationRunHook ''out'' (PyInt 1) None]"
    using hook_attached_iff_chief
      [of "process_with (config_text ''master'' ''0'') (config_json ''master'' 0)"
          "config_text ''master'' ''0''"
          "[(''cluster'', cluster_json), (''task'', task_json ''master'' 0)]"
          "[(''type'', JStr ''master''), (''index'', JNum 0)]"
          "''master''" 0 "''grpc://10.0.0.1:2222''" default_args]
    by (simp add: process_with_def config_text_def config_json_def task_json_def
        loads_table_def cluster_server_def cluster_json_def default_args_def)
  from w m show ?thesis by blast
qed


text \<open>
  Claim C4, as stated, fails: for the task role \<^verbatim>\<open>evaluator\<close>, which is a job of the
  cluster, the dispatcher starts the server of that task and then returns
  \<^verbatim>\<open>None\<close>; no exception is raised.
\<close>

theorem dispatch_unknown_role_counterexample:
  "dispatch (process_with (config_text ''evaluator'' ''0'') (config_json ''evaluator'' 0))
     default_args
   = Returns_None ''grpc://10.0.0.9:2222''"
  by (simp add: dispatch_def process_with_def config_text_def config_json_def task_json_def
      loads_table_def cluster_server_def cluster_json_def)

text \<open>
  Claim C4, amended. For a \<^verbatim>\<open>TF_CONFIG\<close> whose task has an index and a role that is
  none of \<^verbatim>\<open>ps\<close>, \<^verbatim>\<open>master\<close>, \<^verbatim>\<open>worker\<close>, the dispatcher checks nothing
  itself: it builds the cluster spec and starts the server for that task first; when
  that raises, the exception is the outcome; otherwise the dispatcher returns
  \<^verbatim>\<open>None\<close> with the server started and without opening a training session.
\<close>

theorem dispatch_other_role:
  assumes "TF_CONFIG env = Some text" and "text \<noteq> []"
    and "json_loads env text = Inr (JDict kvs)"
    and "map_of kvs ''task'' = Some (JDict task)"
    and "map_of task ''type'' = Some job_name"
    and "map_of task ''index'' = Some task_index"
    and "job_name \<noteq> JNull" and "task_index \<noteq> JNull"
    and "job_name \<noteq> JStr ''ps''" and "job_name \<noteq> JStr ''master''"
    and "job_name \<noteq> JStr ''worker''"
  shows "dispatch env args =
     (case start_server env (case map_of kvs ''cluster'' of None \<Rightarrow> JNull | Some v \<Rightarrow> v)
             job_name task_index of
        Inl e \<Rightarrow> Fails e
      | Inr target \<Rightarrow> Returns_None target)"
  using dispatch_task [OF assms(1-3), of task _ job_name task_index args] assms(4-11)
  by (simp split: sum.splits)

theorem dispatch_other_role_witness:
  "dispatch (process_with (config_text ''evaluator'' ''0'') (config_json ''evaluator'' 0))
     default_args
   = (case cluster_server cluster_json (JStr ''evaluator'') (JNum 0) of
        Inl e \<Rightarrow> Fails e
      | Inr target \<Rightarrow> Returns_None target)
   \<and> dispatch (process_with (config_text ''chief'' ''0'') (config_json ''chief'' 0))
     default_args = Fails ValueError"
proof -
  have 1: "dispatch (process_with (config_text ''evaluator'' ''0'') (config_json ''evaluator'' 0))
     default_args
   = (case cluster_server cluster_json (JStr ''evaluator'') (JNum 0) of
        Inl e \<Rightarrow> Fails e
      | Inr target \<Rightarrow> Returns_None target)"
    using dispatch_other_role
      [of "process_with (config_text ''evaluator'' ''0'') (config_json ''evaluator'' 0)"
          "config_text ''evaluator'' ''0''"
          "[(''cluster'', cluster_json), (''task'', task_json ''evaluator'' 0)]"
          "[(''type'', JStr ''evaluator''), (''index'', JNum 0)]"
          "JStr ''evaluator''" "JNum 0" default_args]
    by (simp add: process_with_def config_text_def config_json_def task_json_def
        loads_table_def)
  have 2: "dispatch (process_with (config_text ''chief'' ''0'') (config_json ''chief'' 0))
     default_args = Fails ValueError"
    using dispatch_other_role
      [of "process_with (config_text ''chief'' ''0'') (config_json ''chief'' 0)"
          "config_text ''chief'' ''0''"
          "[(''cluster'', cluster_json), (''task'', task_json ''chief'' 0)]"
          "[(''type'', JStr ''chief''), (''index'', JNum 0)]"
          "JStr ''chief''" "JNum 0" default_args]
    by (simp add: process_with_def config_text_def config_json_def task_json_def
        loads_table_def cluster_server_def cluster_json_def)
  from 1 2 show ?thesis by simp
qed


lemma dispatch_cluster_absent:
  assumes "TF_CONFIG env = Some text" and "text \<noteq> []"
    and "json_loads env text = Inr (JDict [(''task'', JDict [(''type'', JStr ''worker''),
                                                            (''index'', JNum 0)])])"
  shows "dispatch env args =
     (case start_server env JNull (JStr ''worker'') (JNum 0) of
        Inl e \<Rightarrow> Fails e
      | Inr target \<Rightarrow> Trains (run target False args))"
  using assms by (simp add: dispatch_def split: sum.splits)





section \<open>Command line: the evaluation frequency\<close>

lemma parse_args_eval_frequency:
  "parse_args argv = Inr args \<Longrightarrow>
   eval_frequency args =
     (case flag_value ''--eval-frequency'' argv of None \<Rightarrow> PyInt 1 | Some s \<Rightarrow> PyStr s)"
  by (auto simp: parse_args_def split: sum.splits option.splits)



section \<open>Overlapping callbacks: one evaluation pass at a time\<close>

lemma filter_list_update:
  "i < length xs \<Longrightarrow>
   length (filter P (xs[i := y])) + (if P (xs ! i) then 1 else 0)
     = length (filter P xs) + (if P y then 1 else 0)"
proof (induction xs arbitrary: i)
  case Nil
  then show ?case by simp
next
  case (Cons x xs)
  show ?case
  proof (cases i)
    case 0
    then show ?thesis by simp
  next
    case (Suc j)
    with Cons.prems have "j < length xs" by simp
    from Cons.IH [OF this] Suc show ?thesis by simp
  qed
qed

lemma filter_holder_present:
  "i < length xs \<Longrightarrow> P (xs ! i) \<Longrightarrow> 0 < length (filter P xs)"
  by (metis filter_empty_conv length_greater_0_conv nth_mem)

lemma thread_step_guard:
  assumes "thread_step env p h = Some (p', h')"
    and "holds_eval_lock p \<longrightarrow> eval_lock h"
  shows "(if eval_lock h' then 1 else 0) + (if holds_eval_lock p then 1 else 0)
       = (if eval_lock h then 1 else 0) + (if holds_eval_lock p' then 1 else (0::nat))"
proof (cases p)
  case AR_Test
  with assms show ?thesis
    by (auto simp: holds_eval_lock_def split: sum.splits bool.splits)
next
  case AR_Eval
  with assms obtain r where "run_eval env h = Some r" "p' = AR_Finally" "h' = state_of r"
    by auto
  with assms(2) AR_Eval run_eval_eval_lock [of env h r] show ?thesis
    by (simp add: holds_eval_lock_def)
next
  case End_Eval
  with assms obtain r where "run_eval env h = Some r" "p' = End_Exit" "h' = state_of r"
    by auto
  with assms(2) End_Eval run_eval_eval_lock [of env h r] show ?thesis
    by (simp add: holds_eval_lock_def)
qed (use assms in \<open>auto simp: holds_eval_lock_def split: if_splits\<close>)

lemma perform_guard_inv:
  assumes "guard_inv s"
  shows "guard_inv (perform s a)"
proof (cases a)
  case Invoke_After_Run
  with assms show ?thesis
    by (simp add: guard_inv_def lock_holders_def holds_eval_lock_def)
next
  case Invoke_End
  with assms show ?thesis
    by (simp add: guard_inv_def lock_holders_def holds_eval_lock_def)
next
  case (Step i env)
  show ?thesis
  proof (cases "i < length (threads s)")
    case False
    with Step assms show ?thesis by simp
  next
    case True
    show ?thesis
    proof (cases "thread_step env (threads s ! i) (shared s)")
      case None
      with Step True assms show ?thesis by simp
    next
      case (Some ph)
      obtain p' h' where ph: "ph = (p', h')" by (cases ph)
      have held: "holds_eval_lock (threads s ! i) \<longrightarrow> eval_lock (shared s)"
      proof
        assume "holds_eval_lock (threads s ! i)"
        with True have "0 < lock_holders s"
          unfolding lock_holders_def by (rule filter_holder_present)
        with assms show "eval_lock (shared s)"
          by (simp add: guard_inv_def split: if_splits)
      qed
      from Some ph have st: "thread_step env (threads s ! i) (shared s) = Some (p', h')"
        by simp
      have new: "perform s a = \<lparr> shared = h', threads = (threads s)[i := p'] \<rparr>"
        using Step True st by simp
      from thread_step_guard [OF st held]
        filter_list_update [OF True, of holds_eval_lock p'] assms
      show ?thesis
        by (simp add: new guard_inv_def lock_holders_def split: if_splits)
    qed
  qed
qed

lemma exec_guard_inv:
  "guard_inv s \<Longrightarrow> guard_inv (exec acts s)"
  unfolding exec_def
  by (induction acts arbitrary: s) (simp_all add: perform_guard_inv)

lemma initial_guard_inv:
  "guard_inv (initial dir freq steps)"
  by (simp add: guard_inv_def lock_holders_def initial_def EvaluationRunHook_def)

lemma filter_in_run_eval:
  "length (filter in_run_eval ps) \<le> length (filter holds_eval_lock ps)"
proof (induction ps)
  case Nil
  then show ?case by simp
next
  case (Cons p ps)
  then show ?case by (auto simp: in_run_eval_def holds_eval_lock_def)
qed

text \<open>
  Claim C9. After any interleaving of any number of invocations of \<^verbatim>\<open>after_run\<close> and
  of \<^verbatim>\<open>end\<close> on the one hook, each thread moving one statement at a time in any
  order, at most one thread is inside \<^verbatim>\<open>_run_eval\<close>; more precisely, the number of
  threads between the acquire and the release of the evaluation guard is 1 while the
  guard is held and 0 while it is free.
\<close>

theorem one_evaluation_at_a_time:
  "length (filter in_run_eval (threads (exec acts (initial dir freq steps)))) \<le> 1
   \<and> length (filter holds_eval_lock (threads (exec acts (initial dir freq steps))))
       = (if eval_lock (shared (exec acts (initial dir freq steps))) then 1 else 0)"
proof -
  let ?s = "exec acts (initial dir freq steps)"
  have inv: "guard_inv ?s"
    by (rule exec_guard_inv) (rule initial_guard_inv)
  then have eq: "length (filter holds_eval_lock (threads ?s))
       = (if eval_lock (shared ?s) then 1 else 0)"
    by (simp add: guard_inv_def lock_holders_def)
  have "length (filter in_run_eval (threads ?s)) \<le> length (filter holds_eval_lock (threads ?s))"
    by (rule filter_in_run_eval)
  with eq have "length (filter in_run_eval (threads ?s)) \<le> 1"
    by (simp split: if_splits)
  with eq show ?thesis by simp
qed


lemma overlap_example:
  "threads (exec overlapping_schedule (initial ''job'' (PyInt 0) (Some 1)))
     = [AR_Eval, Finished, End_Acquire]"
  by (simp add: overlapping_schedule_def exec_def initial_def EvaluationRunHook_def
      endless_env_def update_latest_checkpoint_def log_call_def Let_def)

theorem one_evaluation_at_a_time_witness:
  "length (filter in_run_eval [AR_Eval, Finished, End_Acquire]) \<le> 1
   \<and> eval_lock (shared (exec overlapping_schedule (initial ''job'' (PyInt 0) (Some 1))))"
proof -
  note T = one_evaluation_at_a_time [of overlapping_schedule "''job''" "PyInt 0" "Some 1"]
  from T have "length (filter in_run_eval
      (threads (exec overlapping_schedule (initial ''job'' (PyInt 0) (Some 1))))) \<le> 1"
    by (rule conjunct1)
  then have 1: "length (filter in_run_eval [AR_Eval, Finished, End_Acquire]) \<le> 1"
    unfolding overlap_example .
  from T have "length (filter holds_eval_lock
      (threads (exec overlapping_schedule (initial ''job'' (PyInt 0) (Some 1)))))
       = (if eval_lock (shared (exec overlapping_schedule (initial ''job'' (PyInt 0) (Some 1))))
          then 1 else 0)"
    by (rule conjunct2)
  then have 2: "eval_lock (shared (exec overlapping_schedule (initial ''job'' (PyInt 0) (Some 1))))"
    unfolding overlap_example by (simp add: holds_eval_lock_def split: if_splits)
  from 1 2 show ?thesis by simp
qed


section \<open>A callback alone is the callback as a whole\<close>

text \<open>
  The statement-wise reading of the callbacks agrees with \<open>after_run\<close> and
  \<open>end_hook\<close>: one thread, run by itself in unchanged surroundings, leaves the hook as
  the callback does. Five steps reach the end of either callback; a thread that is over
  or waits does not move.
\<close>

lemma after_run_alone:
  assumes "after_run env h = Some r"
  shows "exec (Invoke_After_Run # replicate 5 (Step 0 env)) \<lparr> shared = h, threads = [] \<rparr>
         = \<lparr> shared = state_of r, threads = [Finished] \<rparr>"
proof (cases "eval_lock h")
  case True
  with assms show ?thesis
    by (auto simp: after_run_busy exec_def numeral_eq_Suc)
next
  case False
  note free = this
  show ?thesis
  proof (cases "py_gt (python env)
                  (PyInt (checkpoints_since_eval
                     (update_latest_checkpoint (latest_in_dir env) h))) (eval_every h)")
    case (Inl e)
    with assms free show ?thesis
      by (auto simp: after_run_def Let_def exec_def numeral_eq_Suc update_log_call)
  next
    case (Inr b)
    show ?thesis
    proof (cases b)
      case False
      with Inr assms free show ?thesis
        by (auto simp: after_run_def Let_def exec_def numeral_eq_Suc update_log_call)
    next
      case True
      with Inr assms free obtain r0 where
        r0: "run_eval env (log_call Run_Eval_Called
               ((log_call (Eval_Lock_Acquire True)
                  ((update_latest_checkpoint (latest_in_dir env) (log_call Update_Called h))
                     \<lparr>eval_lock := True\<rparr>))\<lparr>checkpoints_since_eval := 0\<rparr>)) = Some r0"
          "r = map_outcome release_eval_lock r0"
        by (auto simp: after_run_def Let_def update_log_call)
      with True Inr free show ?thesis
        by (simp add: exec_def numeral_eq_Suc update_log_call)
    qed
  qed
qed

lemma end_hook_alone:
  assumes "end_hook env h = Some r"
  shows "exec (Invoke_End # replicate 5 (Step 0 env)) \<lparr> shared = h, threads = [] \<rparr>
         = \<lparr> shared = state_of r,
             threads = [if eval_lock h then End_Acquire else Finished] \<rparr>"
proof (cases "eval_lock h")
  case True
  with assms show ?thesis
    by (auto simp: end_hook_busy exec_def numeral_eq_Suc)
next
  case False
  with assms obtain r0 where
    r0: "run_eval env (log_call Run_Eval_Called (log_call (Eval_Lock_Acquire True)
          ((update_latest_checkpoint (latest_in_dir env) (log_call Update_Called h))
             \<lparr>eval_lock := True\<rparr>))) = Some r0"
      "r = map_outcome release_eval_lock r0"
    by (auto simp: end_hook_free)
  with False show ?thesis
    by (simp add: exec_def numeral_eq_Suc)
qed


end
